theory Spec2Isabelle
  imports Complex_Main
begin

section \<open>Python values, errors and arrays\<close>

text \<open>
  The notebook works on numpy arrays of two axes. An array of shape \<open>(n0, n1)\<close> is the
  list of its \<open>n0\<close> rows, each a list of \<open>n1\<close> entries; \<open>A ! i ! j\<close> is numpy's
  \<open>A[i, j]\<close>. The notebook keeps the shape of the k-space in the variables \<open>Nx\<close> and
  \<open>Ny\<close>, which the definitions below take as arguments. Python floats are read as real
  numbers and numpy's complex entries as complex numbers.

  The exceptions of Python that the notebook's operations can raise are values of
  \<open>py_error\<close>; an operation that may raise returns \<open>py_error + 'a\<close>, with \<open>Inl\<close> the
  exception.
\<close>

datatype py_error = ValueError string | IndexError | ZeroDivisionError

definition rect :: "nat \<Rightarrow> nat \<Rightarrow> 'a list list \<Rightarrow> bool" where
  "rect n0 n1 A \<longleftrightarrow> length A = n0 \<and> list_all (\<lambda>r. length r = n1) A"

text \<open>\<open>np.zeros((d0, d1))\<close>: numpy refuses a negative extent.\<close>

definition np_zeros :: "'a \<Rightarrow> int \<Rightarrow> int \<Rightarrow> py_error + 'a list list" where
  "np_zeros z d0 d1 =
     (if d0 < 0 \<or> d1 < 0 then Inl (ValueError ''negative dimensions are not allowed'')
      else Inr (replicate (nat d0) (replicate (nat d1) z)))"

text \<open>
  An integer index \<open>i\<close> on an axis of length \<open>n\<close>: numpy accepts \<open>- n \<le> i < n\<close>, a
  negative index counting from the end, and raises IndexError otherwise.
\<close>

definition norm_index :: "nat \<Rightarrow> int \<Rightarrow> py_error + nat" where
  "norm_index n i =
     (if 0 \<le> i \<and> i < int n then Inr (nat i)
      else if i < 0 \<and> - int n \<le> i then Inr (nat (i + int n))
      else Inl IndexError)"

text \<open>\<open>A[i, j] = v\<close> on an array of shape \<open>(n0, n1)\<close>.\<close>

definition setitem2 :: "nat \<Rightarrow> nat \<Rightarrow> 'a list list \<Rightarrow> int \<Rightarrow> int \<Rightarrow> 'a \<Rightarrow> py_error + 'a list list" where
  "setitem2 n0 n1 A i j v =
     (case norm_index n0 i of
        Inl e \<Rightarrow> Inl e
      | Inr r \<Rightarrow>
         (case norm_index n1 j of
            Inl e \<Rightarrow> Inl e
          | Inr c \<Rightarrow> Inr (A[r := (A ! r)[c := v]])))"

text \<open>A \<open>for\<close> loop over a range, its body threading the state; an exception ends it.\<close>

fun for_loop :: "nat list \<Rightarrow> (nat \<Rightarrow> 's \<Rightarrow> py_error + 's) \<Rightarrow> 's \<Rightarrow> py_error + 's" where
  "for_loop [] body s = Inr s"
| "for_loop (i # is) body s =
     (case body i s of Inl e \<Rightarrow> Inl e | Inr s' \<Rightarrow> for_loop is body s')"

section \<open>The sinusoid of a k-space position\<close>

text \<open>
  The right-hand side of the assignment in \<open>calculate_sinusoid\<close>,
  \<open>np.pi * np.sin(2*np.pi*fx*x/wx+phix+2*np.pi*fy*y/wy+phiy)\<close>: Python evaluates it
  from left to right, and a float division by zero raises ZeroDivisionError.
\<close>

definition sinusoid_value ::
  "real \<Rightarrow> real \<Rightarrow> real \<Rightarrow> real \<Rightarrow> real \<Rightarrow> real \<Rightarrow> nat \<Rightarrow> nat \<Rightarrow> py_error + real" where
  "sinusoid_value wx wy fx fy phix phiy x y =
     (if wx = 0 then Inl ZeroDivisionError
      else if wy = 0 then Inl ZeroDivisionError
      else Inr (pi * sin (2 * pi * fx * real x / wx + phix + 2 * pi * fy * real y / wy + phiy)))"

text \<open>
  \<open>calculate_sinusoid\<close>. The outer loop runs \<open>y\<close> over \<open>sin_xy.shape[0]\<close> and the inner
  loop \<open>x\<close> over \<open>sin_xy.shape[1]\<close>, and the assignment writes \<open>sin_xy[x,y]\<close>; the shape
  of \<open>sin_xy\<close> is \<open>dimension\<close>.
\<close>

definition sinusoid_body ::
  "nat \<Rightarrow> nat \<Rightarrow> real \<Rightarrow> real \<Rightarrow> real \<Rightarrow> real \<Rightarrow> real \<Rightarrow> real \<Rightarrow> nat \<Rightarrow> nat
     \<Rightarrow> real list list \<Rightarrow> py_error + real list list" where
  "sinusoid_body n0 n1 wx wy fx fy phix phiy y x sin_xy =
     (case sinusoid_value wx wy fx fy phix phiy x y of
        Inl e \<Rightarrow> Inl e
      | Inr v \<Rightarrow> setitem2 n0 n1 sin_xy (int x) (int y) v)"

definition calculate_sinusoid ::
  "int list \<Rightarrow> real \<Rightarrow> real \<Rightarrow> real \<Rightarrow> real \<Rightarrow> real \<Rightarrow> real \<Rightarrow> py_error + real list list" where
  "calculate_sinusoid dimension wx wy fx fy phix phiy =
     (if length dimension \<noteq> 2 then Inl (ValueError ''dimension must be a tuple of length 2'')
      else
        (case np_zeros 0 (dimension ! 0) (dimension ! 1) of
           Inl e \<Rightarrow> Inl e
         | Inr sin_xy \<Rightarrow>
             (let n0 = nat (dimension ! 0); n1 = nat (dimension ! 1)
              in for_loop [0..<n0]
                   (\<lambda>y. for_loop [0..<n1] (sinusoid_body n0 n1 wx wy fx fy phix phiy y))
                   sin_xy)))"

text \<open>
  The value that the spec gives to the pixel \<open>(x, y)\<close> of the sinusoid,
  \<open>\<pi> sin(2\<pi> fx x/wx + phix + 2\<pi> fy y/wy + phiy)\<close>.
\<close>

definition sinusoid :: "real \<Rightarrow> real \<Rightarrow> real \<Rightarrow> real \<Rightarrow> real \<Rightarrow> real \<Rightarrow> nat \<Rightarrow> nat \<Rightarrow> real" where
  "sinusoid wx wy fx fy phix phiy x y =
     pi * sin (2 * pi * fx * real x / wx + phix + 2 * pi * fy * real y / wy + phiy)"

section \<open>The centre of k-space, the frequency mask and the interference\<close>

text \<open>
  The notebook computes the centre as floats, \<open>Cx = Nx/2.0\<close> and \<open>Cy = Ny/2.0\<close>, and
  casts it with \<open>int(...)\<close>, which truncates toward zero.
\<close>

definition py_int :: "real \<Rightarrow> int" where
  "py_int r = (if 0 \<le> r then \<lfloor>r\<rfloor> else \<lceil>r\<rceil>)"

definition Cx :: "nat \<Rightarrow> real" where
  "Cx Nx = real Nx / 2"

definition Cy :: "nat \<Rightarrow> real" where
  "Cy Ny = real Ny / 2"

definition x_start :: "nat \<Rightarrow> int \<Rightarrow> int \<Rightarrow> int" where
  "x_start Nx OFFSETx Kx_half_side = py_int (Cx Nx) + OFFSETx - Kx_half_side"

definition x_stop :: "nat \<Rightarrow> int \<Rightarrow> int \<Rightarrow> int" where
  "x_stop Nx OFFSETx Kx_half_side = py_int (Cx Nx) + OFFSETx + Kx_half_side"

definition y_start :: "nat \<Rightarrow> int \<Rightarrow> int \<Rightarrow> int" where
  "y_start Ny OFFSETy Ky_half_side = py_int (Cy Ny) + OFFSETy - Ky_half_side"

definition y_stop :: "nat \<Rightarrow> int \<Rightarrow> int \<Rightarrow> int" where
  "y_stop Ny OFFSETy Ky_half_side = py_int (Cy Ny) + OFFSETy + Ky_half_side"

text \<open>
  A bound of a slice \<open>a:b\<close> on an axis of length \<open>n\<close>: Python adds \<open>n\<close> to a negative
  bound and then clips the bound to \<open>[0, n]\<close>; a slice never raises.
\<close>

definition slice_bound :: "nat \<Rightarrow> int \<Rightarrow> nat" where
  "slice_bound n i = (if i < 0 then nat (max 0 (i + int n)) else nat (min i (int n)))"

text \<open>\<open>A[r0:r1, c0:c1] = v\<close>, the assignment of a scalar to a rectangular slice.\<close>

definition setslice2 :: "'a list list \<Rightarrow> int \<Rightarrow> int \<Rightarrow> int \<Rightarrow> int \<Rightarrow> 'a \<Rightarrow> 'a list list" where
  "setslice2 A r0 r1 c0 c1 v =
     map (\<lambda>i. if slice_bound (length A) r0 \<le> i \<and> i < slice_bound (length A) r1
               then map (\<lambda>j. if slice_bound (length (A ! i)) c0 \<le> j \<and>
                                 j < slice_bound (length (A ! i)) c1
                              then v else A ! i ! j)
                      [0..<length (A ! i)]
               else A ! i)
       [0..<length A]"

text \<open>
  The mask of the selected frequencies:
  \<open>frequency_mask = np.zeros( (Nx,Ny), dtype=bool )\<close> followed by
  \<open>frequency_mask[y_start:y_stop+1,x_start:x_stop+1] = True\<close>.
\<close>

definition frequency_mask :: "nat \<Rightarrow> nat \<Rightarrow> int \<Rightarrow> int \<Rightarrow> int \<Rightarrow> int \<Rightarrow> py_error + bool list list" where
  "frequency_mask Nx Ny OFFSETx OFFSETy Kx_half_side Ky_half_side =
     (case np_zeros False (int Nx) (int Ny) of
        Inl e \<Rightarrow> Inl e
      | Inr zeros \<Rightarrow>
          Inr (setslice2 zeros
                 (y_start Ny OFFSETy Ky_half_side) (y_stop Ny OFFSETy Ky_half_side + 1)
                 (x_start Nx OFFSETx Kx_half_side) (x_stop Nx OFFSETx Kx_half_side + 1)
                 True))"

text \<open>
  The interference: \<open>kspace_mod = kspace.copy()\<close> followed by
  \<open>kspace_mod[int(Cy)+OFFSETy,int(Cx)+OFFSETx] = value\<close>, on a k-space of shape
  \<open>(Nx, Ny)\<close>. The notebook's value is \<open>amplification_factor * (1. + 1j*1)\<close>.
\<close>

definition kspace_mod_point ::
  "nat \<Rightarrow> nat \<Rightarrow> complex list list \<Rightarrow> int \<Rightarrow> int \<Rightarrow> complex \<Rightarrow> py_error + complex list list" where
  "kspace_mod_point Nx Ny kspace OFFSETx OFFSETy v =
     setitem2 Nx Ny kspace (py_int (Cy Ny) + OFFSETy) (py_int (Cx Nx) + OFFSETx) v"

definition interference_value :: "real \<Rightarrow> complex" where
  "interference_value amplification_factor = of_real amplification_factor * (1 + \<i> * 1)"

section \<open>The shift of the zero frequency\<close>

text \<open>
  \<open>np.roll\<close> along one axis of length \<open>n\<close>: the offset is \<open>shift % (n or 1)\<close>, and the
  result holds \<open>a[:n-offset]\<close> from position \<open>offset\<close> on and \<open>a[n-offset:]\<close> before it.
\<close>

definition np_roll :: "int \<Rightarrow> 'a list \<Rightarrow> 'a list" where
  "np_roll shift a =
     (let n = length a;
          offset = nat (shift mod int (if n = 0 then 1 else n))
      in drop (n - offset) a @ take (n - offset) a)"

text \<open>
  \<open>np.fft.fftshift(x)\<close> rolls every axis by \<open>dim // 2\<close>: the rows of the array, and the
  entries within each row.
\<close>

definition np_fftshift :: "'a list list \<Rightarrow> 'a list list" where
  "np_fftshift x =
     map (\<lambda>row. np_roll (int (length row div 2)) row) (np_roll (int (length x div 2)) x)"

text \<open>
  Modelled from the spec: the inverse shift, which the notebook never calls. The spec has
  it rotate each axis by half its length with integer division, in the direction opposite
  to the shift, so that for an odd length the two amounts differ by one element; this is
  numpy's \<open>ifftshift\<close>, a roll by \<open>-(dim // 2)\<close>.
\<close>

definition inverseShift :: "'a list list \<Rightarrow> 'a list list" where
  "inverseShift x =
     map (\<lambda>row. np_roll (- int (length row div 2)) row) (np_roll (- int (length x div 2)) x)"

section \<open>The Fourier transform of the notebook\<close>

text \<open>
  The factor \<open>exp(-2\<pi>i km/n)\<close> of the discrete Fourier transform of length \<open>n\<close>, and
  its complex conjugate \<open>exp(2\<pi>i km/n)\<close>.
\<close>

definition twiddle :: "nat \<Rightarrow> nat \<Rightarrow> nat \<Rightarrow> complex" where
  "twiddle n k m = cis (- (2 * pi * real k * real m / real n))"

definition twiddle_inv :: "nat \<Rightarrow> nat \<Rightarrow> nat \<Rightarrow> complex" where
  "twiddle_inv n k m = cis (2 * pi * real k * real m / real n)"

text \<open>
  \<open>np.fft.fft2(a, norm='ortho')\<close> on an array of shape \<open>(M, N)\<close>: the entry \<open>(k, l)\<close> of
  the result is the sum of \<open>a[m, n] exp(-2\<pi>i (mk/M + nl/N))\<close> over the array, divided by
  \<open>sqrt(M N)\<close>.
\<close>

definition np_fft2_ortho :: "nat \<Rightarrow> nat \<Rightarrow> complex list list \<Rightarrow> complex list list" where
  "np_fft2_ortho M N a =
     map (\<lambda>k. map (\<lambda>l. (\<Sum>m<M. \<Sum>n<N. a ! m ! n * twiddle M k m * twiddle N l n)
                       / of_real (sqrt (real (M * N))))
                 [0..<N])
       [0..<M]"

text \<open>Division of an array by a real scalar, entry by entry.\<close>

definition array_div :: "complex list list \<Rightarrow> real \<Rightarrow> complex list list" where
  "array_div a c = map (map (\<lambda>z. z / of_real c)) a"

text \<open>
  The reconstruction of the image from the shifted k-space:
  \<open>img = np.fft.fft2( kspace_shifted / np.sqrt(Nx*Ny), norm='ortho' )\<close>.
\<close>

definition img :: "nat \<Rightarrow> nat \<Rightarrow> complex list list \<Rightarrow> complex list list" where
  "img Nx Ny kspace_shifted =
     np_fft2_ortho Nx Ny (array_div kspace_shifted (sqrt (real (Nx * Ny))))"

text \<open>The total energy of an array: the sum of the squared magnitudes of its entries.\<close>

definition energy :: "complex list list \<Rightarrow> real" where
  "energy a = (\<Sum>row\<leftarrow>a. \<Sum>z\<leftarrow>row. (cmod z)\<^sup>2)"

text \<open>
  The reconstruction from a modified k-space:
  \<open>kspace_mod_shifted = np.fft.fftshift( kspace_mod )\<close> followed by
  \<open>img_mod = np.fft.fft2( kspace_mod_shifted / np.sqrt(Nx*Ny), norm='ortho' )\<close>.
\<close>

definition img_mod :: "nat \<Rightarrow> nat \<Rightarrow> complex list list \<Rightarrow> complex list list" where
  "img_mod Nx Ny kspace_mod = img Nx Ny (np_fftshift kspace_mod)"

text \<open>The 4 by 4 spectrum that is zero except for the value \<open>10+10i\<close> at index \<open>(2, 2)\<close>.\<close>

definition point_spectrum :: "complex list list" where
  "point_spectrum =
     [[0, 0, 0, 0], [0, 0, 0, 0], [0, 0, Complex 10 10, 0], [0, 0, 0, 0]]"

section \<open>Auxiliary notions for the proofs\<close>

text \<open>
  The unnormalised double sum of the transform, over a function of two indices, and the
  roll of both axes of an array by fixed amounts.
\<close>

definition dft2 :: "nat \<Rightarrow> nat \<Rightarrow> (nat \<Rightarrow> nat \<Rightarrow> complex) \<Rightarrow> nat \<Rightarrow> nat \<Rightarrow> complex" where
  "dft2 M N f k l = (\<Sum>m<M. \<Sum>n<N. f m n * twiddle M k m * twiddle N l n)"

definition roll2 :: "int \<Rightarrow> int \<Rightarrow> 'a list list \<Rightarrow> 'a list list" where
  "roll2 s0 s1 A = map (np_roll s1) (np_roll s0 A)"

section \<open>Arrays, slices and indices\<close>

lemma rect_replicate: "rect n0 n1 (replicate n0 (replicate n1 z))"
  by (simp add: rect_def list_all_iff)

lemma rect_setslice2: "rect n0 n1 A \<Longrightarrow> rect n0 n1 (setslice2 A r0 r1 c0 c1 v)"
  by (auto simp: rect_def setslice2_def list_all_length)

lemma setslice2_nth:
  "rect n0 n1 A \<Longrightarrow> i < n0 \<Longrightarrow> j < n1 \<Longrightarrow>
   setslice2 A r0 r1 c0 c1 v ! i ! j =
     (if slice_bound n0 r0 \<le> i \<and> i < slice_bound n0 r1 \<and>
         slice_bound n1 c0 \<le> j \<and> j < slice_bound n1 c1 then v else A ! i ! j)"
  by (auto simp: rect_def setslice2_def list_all_length)

lemma slice_bound_inside: "0 \<le> i \<Longrightarrow> i \<le> int n \<Longrightarrow> slice_bound n i = nat i"
  by (simp add: slice_bound_def)

lemma py_int_half: "py_int (real n / 2) = int (n div 2)"
proof -
  have "\<lfloor>real n / real 2\<rfloor> = int (n div 2)"
    by (rule floor_divide_of_nat_eq)
  thus ?thesis by (simp add: py_int_def)
qed

lemma norm_index_cases:
  "norm_index n i = (if - int n \<le> i \<and> i < int n then Inr (nat (i mod int n)) else Inl IndexError)"
proof (cases "0 \<le> i")
  case True
  then show ?thesis by (auto simp: norm_index_def)
next
  case False
  hence neg: "i < 0" by simp
  show ?thesis
  proof (cases "- int n \<le> i")
    case True
    have "i mod int n = (i + int n) mod int n" by simp
    also have "\<dots> = i + int n" using True neg by (intro mod_pos_pos_trivial) auto
    finally show ?thesis using True neg by (simp add: norm_index_def)
  next
    case False
    then show ?thesis using neg by (simp add: norm_index_def)
  qed
qed

section \<open>Roots of unity and the discrete Fourier transform\<close>

lemma twiddle_prod:
  "twiddle n k a * twiddle_inv n k b = cis (2 * pi * (real b - real a) / real n) ^ k"
proof -
  have "- (2 * pi * real k * real a / real n) + 2 * pi * real k * real b / real n
      = real k * (2 * pi * (real b - real a) / real n)"
    by (simp add: algebra_simps diff_divide_distrib)
  thus ?thesis
    by (simp only: twiddle_def twiddle_inv_def cis_mult DeMoivre)
qed

lemma root_neq_1:
  assumes "a < n" "b < n" "a \<noteq> b"
  shows "cis (2 * pi * (real b - real a) / real n) \<noteq> 1"
proof
  assume "cis (2 * pi * (real b - real a) / real n) = 1"
  hence "cos (2 * pi * (real b - real a) / real n) = 1"
    by (simp add: complex_eq_iff)
  then obtain j :: int where j: "2 * pi * (real b - real a) / real n = real_of_int j * 2 * pi"
    using cos_one_2pi_int by blast
  have n0: "real n > 0" using assms by simp
  from j have "(2 * pi) * ((real b - real a) / real n) = (2 * pi) * real_of_int j"
    by (simp add: mult_ac)
  hence "(real b - real a) / real n = real_of_int j"
    by (simp only: mult_cancel_left) simp
  hence "real b - real a = real_of_int j * real n" using n0 by (simp add: field_simps)
  hence "real_of_int (int b - int a) = real_of_int (j * int n)" by simp
  hence e: "int b - int a = j * int n" by (simp only: of_int_eq_iff)
  have "\<bar>int b - int a\<bar> < int n" using assms by auto
  hence "\<bar>j\<bar> * int n < int n" using e by (simp add: abs_mult)
  hence "\<bar>j\<bar> < 1" using n0 by simp
  hence "j = 0" by simp
  with e assms show False by simp
qed

lemma twiddle_orthogonal:
  assumes "a < n" "b < n"
  shows "(\<Sum>k<n. twiddle n k a * twiddle_inv n k b) = (if a = b then of_nat n else 0)"
proof (cases "a = b")
  case True
  then show ?thesis by (simp add: twiddle_prod)
next
  case False
  let ?w = "cis (2 * pi * (real b - real a) / real n)"
  have w1: "?w \<noteq> 1" using assms False by (rule root_neq_1)
  have n0: "real n \<noteq> 0" using assms by simp
  have "real n * (2 * pi * (real b - real a) / real n) = 2 * pi * (real b - real a)"
    using n0 by simp
  moreover have "real b - real a \<in> \<int>" by simp
  ultimately have wn: "?w ^ n = 1"
    by (simp only: DeMoivre cis_multiple_2pi)
  have "(\<Sum>k<n. ?w ^ k) = (?w ^ n - 1) / (?w - 1)" using w1 by (rule geometric_sum)
  with wn False show ?thesis by (simp add: twiddle_prod)
qed

lemma twiddle_cnj: "cnj (twiddle n k m) = twiddle_inv n k m"
  by (simp add: twiddle_def twiddle_inv_def cis_cnj)

lemma dft_inversion:
  assumes "b < n"
  shows "(\<Sum>k<n. (\<Sum>m<n. g m * twiddle n k m) * twiddle_inv n k b) = of_nat n * g b"
proof -
  have "(\<Sum>k<n. (\<Sum>m<n. g m * twiddle n k m) * twiddle_inv n k b)
      = (\<Sum>k<n. \<Sum>m<n. g m * (twiddle n k m * twiddle_inv n k b))"
    by (simp add: sum_distrib_right mult.assoc)
  also have "\<dots> = (\<Sum>m<n. \<Sum>k<n. g m * (twiddle n k m * twiddle_inv n k b))"
    by (rule sum.swap)
  also have "\<dots> = (\<Sum>m<n. g m * (\<Sum>k<n. twiddle n k m * twiddle_inv n k b))"
    by (simp add: sum_distrib_left)
  also have "\<dots> = (\<Sum>m<n. g m * (if m = b then of_nat n else 0))"
    by (rule sum.cong) (simp_all add: twiddle_orthogonal assms)
  also have "\<dots> = (\<Sum>m<n. if m = b then g m * of_nat n else 0)"
    by (rule sum.cong) simp_all
  also have "\<dots> = of_nat n * g b" using assms by (simp add: sum.delta)
  finally show ?thesis .
qed

lemma dft_parseval:
  "(\<Sum>k<n. (cmod (\<Sum>m<n. g m * twiddle n k m))\<^sup>2) = real n * (\<Sum>m<n. (cmod (g m))\<^sup>2)"
proof -
  have "complex_of_real (\<Sum>k<n. (cmod (\<Sum>m<n. g m * twiddle n k m))\<^sup>2)
      = (\<Sum>k<n. (\<Sum>m<n. g m * twiddle n k m) * cnj (\<Sum>m<n. g m * twiddle n k m))"
    by (simp only: of_real_sum complex_norm_square)
  also have "\<dots> = (\<Sum>k<n. (\<Sum>m<n. g m * twiddle n k m) * (\<Sum>m'<n. cnj (g m') * twiddle_inv n k m'))"
    by (simp add: twiddle_cnj)
  also have "\<dots> = (\<Sum>k<n. \<Sum>m'<n. (\<Sum>m<n. g m * twiddle n k m) * twiddle_inv n k m' * cnj (g m'))"
    by (simp add: sum_distrib_left mult_ac)
  also have "\<dots> = (\<Sum>m'<n. \<Sum>k<n. (\<Sum>m<n. g m * twiddle n k m) * twiddle_inv n k m' * cnj (g m'))"
    by (rule sum.swap)
  also have "\<dots> = (\<Sum>m'<n. (\<Sum>k<n. (\<Sum>m<n. g m * twiddle n k m) * twiddle_inv n k m') * cnj (g m'))"
    by (simp add: sum_distrib_right)
  also have "\<dots> = (\<Sum>m'<n. of_nat n * g m' * cnj (g m'))"
    by (rule sum.cong) (simp_all add: dft_inversion)
  also have "\<dots> = complex_of_real (real n * (\<Sum>m<n. (cmod (g m))\<^sup>2))"
    by (simp add: complex_norm_square [symmetric] sum_distrib_left mult.assoc)
  finally show ?thesis by (simp only: of_real_eq_iff)
qed



lemma dft2_rows:
  "dft2 M N f k l = (\<Sum>n<N. (\<Sum>m<M. f m n * twiddle M k m) * twiddle N l n)"
proof -
  have "dft2 M N f k l = (\<Sum>n<N. \<Sum>m<M. f m n * twiddle M k m * twiddle N l n)"
    unfolding dft2_def by (rule sum.swap)
  thus ?thesis by (simp add: sum_distrib_right)
qed

lemma dft2_parseval:
  "(\<Sum>k<M. \<Sum>l<N. (cmod (dft2 M N f k l))\<^sup>2) = real (M * N) * (\<Sum>m<M. \<Sum>n<N. (cmod (f m n))\<^sup>2)"
proof -
  have "(\<Sum>k<M. \<Sum>l<N. (cmod (dft2 M N f k l))\<^sup>2)
      = (\<Sum>k<M. real N * (\<Sum>n<N. (cmod (\<Sum>m<M. f m n * twiddle M k m))\<^sup>2))"
    by (simp only: dft2_rows dft_parseval)
  also have "\<dots> = real N * (\<Sum>n<N. \<Sum>k<M. (cmod (\<Sum>m<M. f m n * twiddle M k m))\<^sup>2)"
    by (subst sum.swap) (simp add: sum_distrib_left)
  also have "\<dots> = real N * (\<Sum>n<N. real M * (\<Sum>m<M. (cmod (f m n))\<^sup>2))"
    by (simp only: dft_parseval)
  also have "\<dots> = real (M * N) * (\<Sum>n<N. \<Sum>m<M. (cmod (f m n))\<^sup>2)"
    by (simp add: sum_distrib_left mult_ac)
  also have "\<dots> = real (M * N) * (\<Sum>m<M. \<Sum>n<N. (cmod (f m n))\<^sup>2)"
    by (subst sum.swap) simp
  finally show ?thesis .
qed

section \<open>The transforms of the notebook as double sums\<close>

lemma rect_nth_length: "rect n0 n1 A \<Longrightarrow> i < n0 \<Longrightarrow> length (A ! i) = n1"
  by (simp add: rect_def list_all_length)

lemma rect_eqI:
  assumes "rect n0 n1 A" "rect n0 n1 B" "\<And>i j. i < n0 \<Longrightarrow> j < n1 \<Longrightarrow> A ! i ! j = B ! i ! j"
  shows "A = B"
proof (rule nth_equalityI)
  show "length A = length B" using assms(1,2) by (simp add: rect_def)
next
  fix i assume "i < length A"
  hence i: "i < n0" using assms(1) by (simp add: rect_def)
  show "A ! i = B ! i"
  proof (rule nth_equalityI)
    show "length (A ! i) = length (B ! i)"
      using assms(1,2) i by (simp add: rect_nth_length)
  next
    fix j assume "j < length (A ! i)"
    hence "j < n1" using assms(1) i by (simp add: rect_nth_length)
    thus "A ! i ! j = B ! i ! j" using i by (simp add: assms(3))
  qed
qed

lemma rect_array_div: "rect n0 n1 a \<Longrightarrow> rect n0 n1 (array_div a c)"
  by (simp add: rect_def array_div_def list_all_length)

lemma array_div_nth:
  "rect n0 n1 a \<Longrightarrow> i < n0 \<Longrightarrow> j < n1 \<Longrightarrow> array_div a c ! i ! j = a ! i ! j / of_real c"
  by (simp add: rect_def array_div_def list_all_length)

lemma rect_np_fft2_ortho: "rect M N (np_fft2_ortho M N a)"
  by (simp add: rect_def np_fft2_ortho_def list_all_length)

lemma np_fft2_ortho_nth:
  "k < M \<Longrightarrow> l < N \<Longrightarrow>
   np_fft2_ortho M N a ! k ! l = dft2 M N (\<lambda>m n. a ! m ! n) k l / of_real (sqrt (real (M * N)))"
  by (simp add: np_fft2_ortho_def dft2_def)

lemma dft2_cong:
  "(\<And>m n. m < M \<Longrightarrow> n < N \<Longrightarrow> f m n = g m n) \<Longrightarrow> dft2 M N f k l = dft2 M N g k l"
  unfolding dft2_def by (intro sum.cong refl) simp

lemma dft2_scale: "dft2 M N (\<lambda>m n. f m n / c) k l = dft2 M N f k l / c"
  unfolding dft2_def by (simp add: sum_divide_distrib)

lemma rect_img: "rect Nx Ny (img Nx Ny S)"
  by (simp add: img_def rect_np_fft2_ortho)

lemma img_nth:
  assumes "rect Nx Ny S" "k < Nx" "l < Ny"
  shows "img Nx Ny S ! k ! l = dft2 Nx Ny (\<lambda>m n. S ! m ! n) k l / of_nat (Nx * Ny)"
proof -
  let ?s = "complex_of_real (sqrt (real (Nx * Ny)))"
  have ss: "?s * ?s = of_nat (Nx * Ny)"
    by (simp only: of_real_mult [symmetric] real_sqrt_mult_self abs_of_nat of_real_of_nat_eq)
  have "img Nx Ny S ! k ! l = dft2 Nx Ny (\<lambda>m n. array_div S (sqrt (real (Nx * Ny))) ! m ! n) k l / ?s"
    using assms(2,3) by (simp only: img_def np_fft2_ortho_nth)
  also have "dft2 Nx Ny (\<lambda>m n. array_div S (sqrt (real (Nx * Ny))) ! m ! n) k l
           = dft2 Nx Ny (\<lambda>m n. S ! m ! n / ?s) k l"
    by (rule dft2_cong) (simp add: array_div_nth [OF assms(1)])
  also have "\<dots> = dft2 Nx Ny (\<lambda>m n. S ! m ! n) k l / ?s" by (rule dft2_scale)
  finally show ?thesis by (simp only: divide_divide_eq_left ss)
qed

lemma energy_rect:
  assumes "rect M N a"
  shows "energy a = (\<Sum>m<M. \<Sum>n<N. (cmod (a ! m ! n))\<^sup>2)"
proof -
  have row: "(\<Sum>z\<leftarrow>r. (cmod z)\<^sup>2) = (\<Sum>n<length r. (cmod (r ! n))\<^sup>2)" for r :: "complex list"
    by (simp add: sum_list_sum_nth atLeast0LessThan)
  have "energy a = (\<Sum>m<length a. \<Sum>n<length (a ! m). (cmod (a ! m ! n))\<^sup>2)"
    by (simp add: energy_def sum_list_sum_nth atLeast0LessThan row)
  also have "\<dots> = (\<Sum>m<M. \<Sum>n<N. (cmod (a ! m ! n))\<^sup>2)"
    using assms by (intro sum.cong) (simp_all add: rect_def list_all_length)
  finally show ?thesis .
qed

lemma energy_img_lemma:
  assumes "rect Nx Ny S"
  shows "energy (img Nx Ny S) = energy S / real (Nx * Ny)"
proof (cases "Nx * Ny = 0")
  case True
  hence "(\<Sum>m<Nx. \<Sum>n<Ny. (cmod (img Nx Ny S ! m ! n))\<^sup>2) = 0" by auto
  thus ?thesis using True by (simp add: energy_rect [OF rect_img])
next
  case False
  hence pos: "real (Nx * Ny) > 0" by simp
  have "energy (img Nx Ny S) = (\<Sum>k<Nx. \<Sum>l<Ny. (cmod (img Nx Ny S ! k ! l))\<^sup>2)"
    by (rule energy_rect [OF rect_img])
  also have "\<dots> = (\<Sum>k<Nx. \<Sum>l<Ny. (cmod (dft2 Nx Ny (\<lambda>m n. S ! m ! n) k l))\<^sup>2 / (real (Nx * Ny))\<^sup>2)"
    by (intro sum.cong refl)
       (simp add: img_nth [OF assms] norm_divide power_divide del: of_nat_mult)
  also have "\<dots> = (\<Sum>k<Nx. \<Sum>l<Ny. (cmod (dft2 Nx Ny (\<lambda>m n. S ! m ! n) k l))\<^sup>2) / (real (Nx * Ny))\<^sup>2"
    by (simp add: sum_divide_distrib)
  also have "\<dots> = real (Nx * Ny) * energy S / (real (Nx * Ny))\<^sup>2"
    by (simp only: dft2_parseval energy_rect [OF assms])
  also have "\<dots> = energy S / real (Nx * Ny)"
    using pos by (simp add: power2_eq_square)
  finally show ?thesis .
qed

text \<open>
  The orthonormal \<open>fft2\<close> by itself keeps the energy; it is the further division by
  \<open>sqrt(Nx Ny)\<close> that scales the energy.
\<close>

lemma energy_np_fft2_ortho:
  assumes "rect M N S"
  shows "energy (np_fft2_ortho M N S) = energy S"
proof (cases "M * N = 0")
  case True
  hence "(\<Sum>m<M. \<Sum>n<N. (cmod (np_fft2_ortho M N S ! m ! n))\<^sup>2) = 0"
    and "(\<Sum>m<M. \<Sum>n<N. (cmod (S ! m ! n))\<^sup>2) = 0" by auto
  thus ?thesis by (simp add: energy_rect [OF rect_np_fft2_ortho] energy_rect [OF assms])
next
  case False
  hence pos: "real (M * N) > 0" by simp
  have "energy (np_fft2_ortho M N S) = (\<Sum>k<M. \<Sum>l<N. (cmod (np_fft2_ortho M N S ! k ! l))\<^sup>2)"
    by (rule energy_rect [OF rect_np_fft2_ortho])
  also have "\<dots> = (\<Sum>k<M. \<Sum>l<N. (cmod (dft2 M N (\<lambda>m n. S ! m ! n) k l))\<^sup>2 / real (M * N))"
    using pos by (intro sum.cong refl)
       (simp add: np_fft2_ortho_nth norm_divide power_divide del: of_nat_mult)
  also have "\<dots> = (\<Sum>k<M. \<Sum>l<N. (cmod (dft2 M N (\<lambda>m n. S ! m ! n) k l))\<^sup>2) / real (M * N)"
    by (simp add: sum_divide_distrib)
  also have "\<dots> = real (M * N) * energy S / real (M * N)"
    by (simp only: dft2_parseval energy_rect [OF assms])
  also have "\<dots> = energy S" using False by simp
  finally show ?thesis .
qed

section \<open>Rolls and shifts\<close>

lemma np_roll_offset:
  assumes "0 < length a"
  obtains k where "k < length a" "int k = s mod int (length a)"
    "np_roll s a = drop (length a - k) a @ take (length a - k) a"
proof
  let ?k = "nat (s mod int (length a))"
  show "?k < length a" using assms by (simp add: nat_less_iff)
  show "int ?k = s mod int (length a)" using assms by simp
  show "np_roll s a = drop (length a - ?k) a @ take (length a - ?k) a"
    using assms by (simp add: np_roll_def Let_def)
qed

lemma np_roll_nth:
  assumes "i < length a"
  shows "np_roll s a ! i = a ! nat ((int i - s) mod int (length a))"
proof -
  let ?n = "length a"
  have n: "0 < ?n" using assms by auto
  from np_roll_offset [OF n, of s] obtain k where
    k: "k < ?n" and ik: "int k = s mod int ?n"
    and r: "np_roll s a = drop (?n - k) a @ take (?n - k) a" by blast
  have m: "(int i - s) mod int ?n = (int i - int k) mod int ?n"
    by (simp only: ik mod_diff_right_eq)
  show ?thesis
  proof (cases "i < k")
    case True
    have "(int i - int k) mod int ?n = (int i - int k + int ?n) mod int ?n"
      by (simp only: mod_add_self2)
    also have "\<dots> = int i - int k + int ?n"
      using True assms k by (intro mod_pos_pos_trivial) auto
    also have "\<dots> = int (?n - k + i)" using k by simp
    finally have "nat ((int i - s) mod int ?n) = ?n - k + i"
      by (simp only: m nat_int)
    moreover have "np_roll s a ! i = a ! (?n - k + i)"
      using True k by (simp add: r nth_append)
    ultimately show ?thesis by simp
  next
    case False
    have "(int i - int k) mod int ?n = int i - int k"
      using False assms by (intro mod_pos_pos_trivial) auto
    also have "\<dots> = int (i - k)" using False by simp
    finally have e: "nat ((int i - s) mod int ?n) = i - k"
      by (simp only: m nat_int)
    have "np_roll s a ! i = take (?n - k) a ! (i - k)"
      using False k assms by (simp add: r nth_append)
    also have "\<dots> = a ! (i - k)" using False k assms by simp
    finally show ?thesis using e by simp
  qed
qed

lemma length_np_roll: "length (np_roll s a) = length a"
  by (auto simp: np_roll_def Let_def)

lemma np_roll_roll_nth:
  assumes "i < length a"
  shows "np_roll s (np_roll t a) ! i = a ! nat ((int i - (s + t)) mod int (length a))"
proof -
  let ?n = "int (length a)"
  have n: "0 < ?n" using assms by auto
  have j: "nat ((int i - s) mod ?n) < length a" using n by (simp add: nat_less_iff)
  have "np_roll s (np_roll t a) ! i = np_roll t a ! nat ((int i - s) mod ?n)"
    using assms by (simp add: np_roll_nth length_np_roll)
  also have "\<dots> = a ! nat ((int (nat ((int i - s) mod ?n)) - t) mod ?n)"
    using j by (rule np_roll_nth)
  also have "(int (nat ((int i - s) mod ?n)) - t) mod ?n = ((int i - s) mod ?n - t) mod ?n"
    using n by simp
  also have "\<dots> = (int i - (s + t)) mod ?n"
    by (simp add: mod_diff_left_eq algebra_simps)
  finally show ?thesis .
qed

lemma np_roll_roll_id:
  assumes "(s + t) mod int (length a) = 0"
  shows "np_roll s (np_roll t a) = a"
proof (rule nth_equalityI)
  show "length (np_roll s (np_roll t a)) = length a" by (simp add: length_np_roll)
next
  fix i assume "i < length (np_roll s (np_roll t a))"
  hence i: "i < length a" by (simp add: length_np_roll)
  have "(int i - (s + t)) mod int (length a) = (int i - (s + t) mod int (length a)) mod int (length a)"
    by (simp add: mod_diff_right_eq)
  also have "\<dots> = int i" using assms i by simp
  finally show "np_roll s (np_roll t a) ! i = a ! i"
    using i by (simp add: np_roll_roll_nth)
qed

lemma np_roll_roll_succ:
  assumes "i < length a" "(s + t) mod int (length a) = int (length a) - 1"
  shows "np_roll s (np_roll t a) ! i = a ! ((i + 1) mod length a)"
proof -
  let ?n = "int (length a)"
  have "(int i - (s + t)) mod ?n = (int i - (s + t) mod ?n) mod ?n"
    by (simp add: mod_diff_right_eq)
  also have "\<dots> = (int i + 1 - ?n) mod ?n"
    by (simp only: assms(2) diff_diff_eq2)
  also have "\<dots> = (int i + 1) mod ?n" by (simp only: minus_mod_self2)
  also have "\<dots> = int ((i + 1) mod length a)" by (simp add: zmod_int add.commute)
  finally show ?thesis using assms(1) by (simp add: np_roll_roll_nth)
qed


lemma rect_np_roll: "rect n0 n1 A \<Longrightarrow> rect n0 n1 (np_roll s A)"
  by (auto simp: rect_def np_roll_def Let_def list_all_iff dest: in_set_dropD in_set_takeD)

lemma np_roll_map: "np_roll s (map f A) = map f (np_roll s A)"
  by (simp add: np_roll_def Let_def drop_map take_map)

lemma rect_row_length: "rect n0 n1 A \<Longrightarrow> r \<in> set A \<Longrightarrow> length r = n1"
  by (simp add: rect_def list_all_iff)

lemma np_fftshift_roll2:
  assumes "rect n0 n1 A"
  shows "np_fftshift A = roll2 (int (n0 div 2)) (int (n1 div 2)) A"
proof -
  have "length A = n0" using assms by (simp add: rect_def)
  moreover have "\<And>r. r \<in> set (np_roll (int (n0 div 2)) A) \<Longrightarrow> length r = n1"
    using rect_np_roll [OF assms] by (rule rect_row_length)
  ultimately show ?thesis by (simp add: np_fftshift_def roll2_def)
qed

lemma inverseShift_roll2:
  assumes "rect n0 n1 A"
  shows "inverseShift A = roll2 (- int (n0 div 2)) (- int (n1 div 2)) A"
proof -
  have "length A = n0" using assms by (simp add: rect_def)
  moreover have "\<And>r. r \<in> set (np_roll (- int (n0 div 2)) A) \<Longrightarrow> length r = n1"
    using rect_np_roll [OF assms] by (rule rect_row_length)
  ultimately show ?thesis by (simp add: inverseShift_def roll2_def)
qed

lemma rect_roll2: "rect n0 n1 A \<Longrightarrow> rect n0 n1 (roll2 s0 s1 A)"
  unfolding roll2_def by (simp add: rect_def list_all_iff length_np_roll np_roll_def Let_def)
     (auto dest: in_set_dropD in_set_takeD)

lemma roll2_roll2:
  "roll2 s0 s1 (roll2 t0 t1 A) = map (\<lambda>r. np_roll s1 (np_roll t1 r)) (np_roll s0 (np_roll t0 A))"
  by (simp add: roll2_def np_roll_map)

lemma roll2_roll2_id:
  assumes "rect n0 n1 A" "(s0 + t0) mod int n0 = 0" "(s1 + t1) mod int n1 = 0"
  shows "roll2 s0 s1 (roll2 t0 t1 A) = A"
proof -
  have "np_roll s0 (np_roll t0 A) = A"
    using assms(1,2) by (intro np_roll_roll_id) (simp add: rect_def)
  moreover have "map (\<lambda>r. np_roll s1 (np_roll t1 r)) A = map (\<lambda>r. r) A"
    using assms(1,3) by (intro map_cong refl np_roll_roll_id) (simp add: rect_row_length)
  ultimately show ?thesis by (simp add: roll2_roll2)
qed

lemma roll2_roll2_succ:
  assumes "rect n0 n1 A" "(s0 + t0) mod int n0 = int n0 - 1" "(s1 + t1) mod int n1 = int n1 - 1"
    and "i < n0" "j < n1"
  shows "roll2 s0 s1 (roll2 t0 t1 A) ! i ! j = A ! ((i + 1) mod n0) ! ((j + 1) mod n1)"
proof -
  have len: "length A = n0" using assms(1) by (simp add: rect_def)
  let ?B = "np_roll s0 (np_roll t0 A)"
  have Bi: "?B ! i = A ! ((i + 1) mod n0)"
    using assms(2,4) len by (simp add: np_roll_roll_succ)
  have i': "(i + 1) mod n0 < n0" using assms(4) by simp
  have rl: "length (A ! ((i + 1) mod n0)) = n1"
    using assms(1) i' by (rule rect_nth_length)
  have "roll2 s0 s1 (roll2 t0 t1 A) ! i ! j = np_roll s1 (np_roll t1 (?B ! i)) ! j"
    using assms(4) len by (simp add: roll2_roll2 length_np_roll)
  also have "\<dots> = A ! ((i + 1) mod n0) ! ((j + 1) mod n1)"
    using assms(3,5) rl by (simp add: Bi np_roll_roll_succ)
  finally show ?thesis .
qed

lemma shift_shift_even:
  assumes "rect Nx Ny S" "even Nx" "even Ny"
  shows "np_fftshift (np_fftshift S) = S"
proof -
  have "(int (Nx div 2) + int (Nx div 2)) mod int Nx = 0"
       "(int (Ny div 2) + int (Ny div 2)) mod int Ny = 0"
    using assms(2,3) by (auto elim!: evenE)
  thus ?thesis
    by (simp only: np_fftshift_roll2 [OF assms(1)] np_fftshift_roll2 [OF rect_roll2 [OF assms(1)]]
          roll2_roll2_id [OF assms(1)])
qed

lemma shift_inverseShift:
  assumes "rect Nx Ny S"
  shows "np_fftshift (inverseShift S) = S"
proof -
  have "(int (Nx div 2) + - int (Nx div 2)) mod int Nx = 0"
       "(int (Ny div 2) + - int (Ny div 2)) mod int Ny = 0"
    by simp_all
  thus ?thesis
    by (simp only: inverseShift_roll2 [OF assms(1)] np_fftshift_roll2 [OF rect_roll2 [OF assms(1)]]
          roll2_roll2_id [OF assms(1)])
qed

lemma odd_double_half: "odd (n::nat) \<Longrightarrow> (int (n div 2) + int (n div 2)) mod int n = int n - 1"
proof -
  assume "odd n"
  then obtain k where k: "n = 2 * k + 1" by (auto elim: oddE)
  hence "int (n div 2) + int (n div 2) = int n - 1" by simp
  moreover have "(int n - 1) mod int n = int n - 1" using k by (intro mod_pos_pos_trivial) auto
  ultimately show ?thesis by simp
qed

lemma shift_shift_odd:
  assumes "rect Nx Ny S" "odd Nx" "odd Ny" "i < Nx" "j < Ny"
  shows "np_fftshift (np_fftshift S) ! i ! j = S ! ((i + 1) mod Nx) ! ((j + 1) mod Ny)"
  by (simp only: np_fftshift_roll2 [OF assms(1)] np_fftshift_roll2 [OF rect_roll2 [OF assms(1)]]
          roll2_roll2_succ [OF assms(1) odd_double_half [OF assms(2)] odd_double_half [OF assms(3)] assms(4,5)])


section \<open>The loops of the sinusoid\<close>

lemma for_loop_append:
  "for_loop (xs @ ys) body s =
     (case for_loop xs body s of Inl e \<Rightarrow> Inl e | Inr s' \<Rightarrow> for_loop ys body s')"
  by (induction xs arbitrary: s) (auto split: sum.splits)

lemma for_loop_total:
  assumes "\<And>i s. i \<in> set xs \<Longrightarrow> \<exists>s'. body i s = Inr s'"
  shows "\<exists>s'. for_loop xs body s = Inr s'"
  using assms
proof (induction xs arbitrary: s)
  case Nil
  then show ?case by simp
next
  case (Cons i xs)
  from Cons.prems [of i s] obtain s1 where s1: "body i s = Inr s1" by auto
  from Cons.IH [of s1] Cons.prems obtain s2 where "for_loop xs body s1 = Inr s2" by auto
  with s1 show ?case by simp
qed

lemma for_loop_upt_invariant:
  assumes "I k s" "k \<le> n"
    and "\<And>i s. k \<le> i \<Longrightarrow> i < n \<Longrightarrow> I i s \<Longrightarrow> \<exists>s'. body i s = Inr s' \<and> I (Suc i) s'"
  shows "\<exists>s'. for_loop [k..<n] body s = Inr s' \<and> I n s'"
  using assms
proof (induction "n - k" arbitrary: k s)
  case 0
  then show ?case by simp
next
  case (Suc d)
  hence kn: "k < n" by simp
  from Suc.prems(3) [OF le_refl kn Suc.prems(1)] obtain s1 where
    s1: "body k s = Inr s1" "I (Suc k) s1" by blast
  have "\<exists>s'. for_loop [Suc k..<n] body s1 = Inr s' \<and> I n s'"
  proof (rule Suc.hyps(1))
    show "d = n - Suc k" using Suc.hyps(2) by simp
    show "I (Suc k) s1" by (rule s1(2))
    show "Suc k \<le> n" using kn by simp
    show "\<exists>s'. body i s = Inr s' \<and> I (Suc i) s'" if "Suc k \<le> i" "i < n" "I i s" for i s
      using that Suc.prems(3) [of i s] by simp
  qed
  thus ?case using kn s1(1) by (simp add: upt_conv_Cons)
qed

lemma sinusoid_body_ok:
  assumes "wx \<noteq> 0" "wy \<noteq> 0" "x < n0" "y < n1"
  shows "sinusoid_body n0 n1 wx wy fx fy phix phiy y x A =
           Inr (A[x := (A ! x)[y := sinusoid wx wy fx fy phix phiy x y]])"
  using assms
  by (simp add: sinusoid_body_def sinusoid_value_def setitem2_def norm_index_def sinusoid_def)

lemma sinusoid_body_fail:
  assumes "wx \<noteq> 0" "wy \<noteq> 0" "n0 \<le> x \<or> n1 \<le> y"
  shows "sinusoid_body n0 n1 wx wy fx fy phix phiy y x A = Inl IndexError"
  using assms
  by (auto simp: sinusoid_body_def sinusoid_value_def setitem2_def norm_index_def split: sum.splits)

lemma calculate_sinusoid_wide:
  assumes w: "wx \<noteq> 0" "wy \<noteq> 0" and d: "1 \<le> d0" "d0 < d1"
  shows "calculate_sinusoid [int d0, int d1] wx wy fx fy phix phiy = Inl IndexError"
proof -
  let ?body = "sinusoid_body d0 d1 wx wy fx fy phix phiy"
  have split: "[0..<d1] = [0..<d0] @ d0 # [Suc d0..<d1]"
    using d by (metis less_imp_le_nat upt_add_eq_append upt_conv_Cons add.commute le_add_diff_inverse2 less_eq_nat.simps(1) add_0)
  have y0: "0 < d1" using d by simp
  have inner: "for_loop [0..<d1] (?body 0) A = Inl IndexError" for A
  proof -
    have "\<exists>s'. for_loop [0..<d0] (?body 0) A = Inr s'"
      by (rule for_loop_total) (simp add: sinusoid_body_ok [OF w _ y0])
    then obtain s' where "for_loop [0..<d0] (?body 0) A = Inr s'" ..
    thus ?thesis by (simp add: split for_loop_append sinusoid_body_fail [OF w])
  qed
  have o: "[0..<d0] = 0 # [1..<d0]" using d by (simp add: upt_conv_Cons)
  show ?thesis
    by (simp add: calculate_sinusoid_def np_zeros_def Let_def o inner)
qed

lemma calculate_sinusoid_tall:
  assumes w: "wx \<noteq> 0" "wy \<noteq> 0" and d: "1 \<le> d1" "d1 < d0"
  shows "calculate_sinusoid [int d0, int d1] wx wy fx fy phix phiy = Inl IndexError"
proof -
  let ?body = "sinusoid_body d0 d1 wx wy fx fy phix phiy"
  let ?outer = "\<lambda>y. for_loop [0..<d1] (?body y)"
  have split: "[0..<d0] = [0..<d1] @ d1 # [Suc d1..<d0]"
    using d by (metis less_imp_le_nat upt_add_eq_append upt_conv_Cons add.commute le_add_diff_inverse2 less_eq_nat.simps(1) add_0)
  have ok: "\<exists>s'. ?outer y A = Inr s'" if "y < d1" for y A
    by (rule for_loop_total) (use d that in \<open>simp add: sinusoid_body_ok [OF w]\<close>)
  have pre: "\<exists>s'. for_loop [0..<d1] ?outer A = Inr s'" for A
    by (rule for_loop_total) (simp add: ok)
  have i0: "[0..<d1] = 0 # [1..<d1]" using d by (simp add: upt_conv_Cons)
  have bad: "?outer d1 A = Inl IndexError" for A
    by (simp add: i0 sinusoid_body_fail [OF w])
  have "for_loop [0..<d0] ?outer A = Inl IndexError" for A
  proof -
    from pre [of A] obtain s' where "for_loop [0..<d1] ?outer A = Inr s'" ..
    thus ?thesis by (simp add: split for_loop_append bad)
  qed
  thus ?thesis
    by (simp add: calculate_sinusoid_def np_zeros_def Let_def)
qed

lemma calculate_sinusoid_square:
  assumes w: "wx \<noteq> 0" "wy \<noteq> 0"
  shows "calculate_sinusoid [int n, int n] wx wy fx fy phix phiy =
           Inr (map (\<lambda>x. map (\<lambda>y. sinusoid wx wy fx fy phix phiy x y) [0..<n]) [0..<n])"
proof -
  let ?v = "sinusoid wx wy fx fy phix phiy"
  let ?body = "sinusoid_body n n wx wy fx fy phix phiy"
  let ?outer = "\<lambda>y. for_loop [0..<n] (?body y)"
  define J where "J y x A \<longleftrightarrow> rect n n A \<and>
      (\<forall>i<n. \<forall>j<n. A ! i ! j = (if j < y \<or> (j = y \<and> i < x) then ?v i j else 0))" for y x A
  define I where "I y A \<longleftrightarrow> rect n n A \<and>
      (\<forall>i<n. \<forall>j<n. A ! i ! j = (if j < y then ?v i j else 0))" for y A
  have IJ: "I y A \<longleftrightarrow> J y 0 A" for y A by (simp add: I_def J_def)
  have JI: "J y n A \<Longrightarrow> y < n \<Longrightarrow> I (Suc y) A" for y A
    by (auto simp: I_def J_def less_Suc_eq)
  have step: "\<exists>A'. ?body y x A = Inr A' \<and> J y (Suc x) A'" if "y < n" "x < n" "J y x A" for y x A
  proof -
    let ?A' = "A[x := (A ! x)[y := ?v x y]]"
    have len: "length A = n" "\<And>i. i < n \<Longrightarrow> length (A ! i) = n"
      using that(3) by (simp_all add: J_def rect_def list_all_length)
    have "?body y x A = Inr ?A'" using w that(1,2) by (simp add: sinusoid_body_ok)
    moreover have "rect n n ?A'"
      using len that(2) by (auto simp: rect_def list_all_length nth_list_update)
    moreover have "\<forall>i<n. \<forall>j<n. ?A' ! i ! j = (if j < y \<or> (j = y \<and> i < Suc x) then ?v i j else 0)"
      using that len by (auto simp: J_def nth_list_update less_Suc_eq)
    ultimately show ?thesis by (simp add: J_def)
  qed
  have inner: "\<exists>A'. ?outer y A = Inr A' \<and> I (Suc y) A'" if "y < n" "I y A" for y A
  proof -
    have "\<exists>A'. for_loop [0..<n] (?body y) A = Inr A' \<and> J y n A'"
      by (rule for_loop_upt_invariant [where I = "J y"])
         (use that step in \<open>simp_all add: IJ\<close>)
    thus ?thesis using JI that(1) by blast
  qed
  have I0: "I 0 (replicate n (replicate n 0))"
    by (simp add: I_def rect_replicate)
  have "\<exists>A'. for_loop [0..<n] ?outer (replicate n (replicate n 0)) = Inr A' \<and> I n A'"
    by (rule for_loop_upt_invariant [where I = I]) (use I0 inner in simp_all)
  then obtain A' where A': "for_loop [0..<n] ?outer (replicate n (replicate n 0)) = Inr A'" "I n A'"
    by blast
  have "A' = map (\<lambda>x. map (\<lambda>y. ?v x y) [0..<n]) [0..<n]"
  proof (rule rect_eqI [of n n])
    show "rect n n A'" using A'(2) by (simp add: I_def)
    show "rect n n (map (\<lambda>x. map (\<lambda>y. ?v x y) [0..<n]) [0..<n])"
      by (simp add: rect_def list_all_length)
    show "A' ! i ! j = map (\<lambda>x. map (\<lambda>y. ?v x y) [0..<n]) [0..<n] ! i ! j" if "i < n" "j < n" for i j
      using A'(2) that by (simp add: I_def)
  qed
  with A'(1) show ?thesis
    by (simp add: calculate_sinusoid_def np_zeros_def Let_def)
qed

lemma calculate_sinusoid_shapes:
  assumes "wx \<noteq> 0" "wy \<noteq> 0" "1 \<le> d0" "1 \<le> d1"
  shows "calculate_sinusoid [int d0, int d1] wx wy fx fy phix phiy =
           (if d0 = d1
            then Inr (map (\<lambda>x. map (\<lambda>y. sinusoid wx wy fx fy phix phiy x y) [0..<d1]) [0..<d0])
            else Inl IndexError)"
proof -
  consider "d0 = d1" | "d0 < d1" | "d1 < d0" by linarith
  thus ?thesis
  proof cases
    case 1
    thus ?thesis using assms(1,2) by (simp add: calculate_sinusoid_square)
  next
    case 2
    thus ?thesis using assms by (simp add: calculate_sinusoid_wide)
  next
    case 3
    thus ?thesis using assms by (simp add: calculate_sinusoid_tall)
  qed
qed

section \<open>The transform on concrete spectra\<close>

lemma cis_minus_pi: "cis (- pi) = - 1"
  by (simp add: complex_eq_iff)

lemma sqrt2_square: "complex_of_real (sqrt 2) * complex_of_real (sqrt 2) = 2"
  by (simp flip: of_real_mult)

lemma img_1_2_ones: "img 1 2 [[1, 1]] = [[1, 0]]"
  by (simp add: img_def np_fft2_ortho_def array_div_def twiddle_def upt_conv_Cons
       eval_nat_numeral cis_minus_pi sqrt2_square)

lemma point_spectrum_injected:
  "kspace_mod_point 4 4 (replicate 4 (replicate 4 0)) 0 0 (Complex 10 10) = Inr point_spectrum"
  by (simp add: kspace_mod_point_def setitem2_def norm_index_def py_int_def Cx_def Cy_def
         eval_nat_numeral point_spectrum_def)

lemma np_fftshift_point_spectrum:
  "np_fftshift point_spectrum =
     [[Complex 10 10, 0, 0, 0], [0, 0, 0, 0], [0, 0, 0, 0], [0, 0, 0, 0]]"
  by (simp add: np_fftshift_def np_roll_def point_spectrum_def Let_def)

lemma img_mod_point_spectrum:
  "img_mod 4 4 point_spectrum = replicate 4 (replicate 4 (Complex 10 10 / 16))"
  unfolding img_mod_def np_fftshift_point_spectrum
  by (simp add: img_def np_fft2_ortho_def array_div_def twiddle_def upt_conv_Cons
       eval_nat_numeral)

section \<open>The transform: energy and the image of a point\<close>

text \<open>
  C2. The claim is that the transform of the notebook preserves the total energy. With the
  division by \<open>sqrt(Nx Ny)\<close> on top of the orthonormal \<open>fft2\<close> it does not: for every
  spectrum \<open>S\<close> of shape \<open>(Nx, Ny)\<close>, of even or odd sizes alike, the energy of the
  transform of \<open>S\<close> is the energy of \<open>S\<close> divided by \<open>Nx Ny\<close>.
\<close>

theorem energy_img_scaled:
  assumes "rect Nx Ny S"
  shows "energy (img Nx Ny S) = energy S / real (Nx * Ny)"
  using assms by (rule energy_img_lemma)

text \<open>The theorem at a spectrum of the odd shape \<open>(1, 3)\<close>, of energy 9.\<close>

theorem energy_img_scaled_witness:
  "rect 1 3 [[1, 2, 2 :: complex]] \<and> energy (img 1 3 [[1, 2, 2]]) = 3"
proof -
  have r: "rect 1 3 [[1, 2, 2 :: complex]]" by (simp add: rect_def)
  have e: "energy [[1, 2, 2]] = 9" by (simp add: energy_def)
  from energy_img_scaled [OF r] r show ?thesis by (simp add: e)
qed

text \<open>
  The claim fails at the spectrum \<open>[[1, 1]]\<close> of shape \<open>(1, 2)\<close>, whose energy is 2 while
  the energy of its transform \<open>[[1, 0]]\<close> is 1.
\<close>

theorem energy_counterexample:
  "energy [[1, 1]] = 2 \<and> energy (img 1 2 [[1, 1]]) = 1 \<and>
   energy (img 1 2 [[1, 1]]) \<noteq> energy [[1, 1]]"
  unfolding img_1_2_ones by (simp add: energy_def)

text \<open>
  C3. The scenario of the claim: the 4 by 4 zero spectrum, the value \<open>10+10i\<close> written at
  the centre (offsets 0 and 0, array index \<open>(2, 2)\<close>), then the shift and the transform of
  the notebook. The claim gives every pixel the magnitude \<open>|10+10i|/4\<close>. With the
  notebook's division by \<open>sqrt(Nx Ny)\<close> before the orthonormal \<open>fft2\<close>, every one of the
  16 pixels has magnitude \<open>|10+10i|/16\<close>.
\<close>

theorem point_image_magnitude:
  "kspace_mod_point 4 4 (replicate 4 (replicate 4 0)) 0 0 (Complex 10 10) = Inr point_spectrum \<and>
   map (map cmod) (img_mod 4 4 point_spectrum) =
     replicate 4 (replicate 4 (cmod (Complex 10 10) / 16))"
  by (simp add: point_spectrum_injected img_mod_point_spectrum norm_divide)

text \<open>
  The claim fails at the pixel \<open>(0, 0)\<close>: its magnitude is \<open>|10+10i|/16\<close>, which is not
  \<open>|10+10i|/4\<close>.
\<close>

theorem point_image_counterexample:
  "kspace_mod_point 4 4 (replicate 4 (replicate 4 0)) 0 0 (Complex 10 10) = Inr point_spectrum \<and>
   cmod (img_mod 4 4 point_spectrum ! 0 ! 0) = cmod (Complex 10 10) / 16 \<and>
   cmod (img_mod 4 4 point_spectrum ! 0 ! 0) \<noteq> cmod (Complex 10 10) / 4"
proof -
  have p: "img_mod 4 4 point_spectrum ! 0 ! 0 = Complex 10 10 / 16"
    by (simp add: img_mod_point_spectrum)
  have m: "cmod (Complex 10 10 / 16) = cmod (Complex 10 10) / 16"
    by (simp add: norm_divide)
  have "0 < cmod (Complex 10 10)" by (simp add: complex_eq_iff)
  moreover have "0 < x \<Longrightarrow> x / 16 \<noteq> x / 4" for x :: real by simp
  ultimately have "cmod (Complex 10 10) / 16 \<noteq> cmod (Complex 10 10) / 4" by blast
  thus ?thesis by (simp only: p m point_spectrum_injected simp_thms)
qed

section \<open>The shift\<close>

text \<open>
  C4. For every array \<open>S\<close> of shape \<open>(Nx, Ny)\<close>: when \<open>Nx\<close> and \<open>Ny\<close> are even, the shift
  applied twice gives \<open>S\<close> back exactly; the shift applied after the inverse shift gives
  \<open>S\<close> back whatever the sizes; and when \<open>Nx\<close> and \<open>Ny\<close> are odd, the shift applied twice
  moves the entry at \<open>((i+1) mod Nx, (j+1) mod Ny)\<close> to \<open>(i, j)\<close>, so that it gives \<open>S\<close>
  back only for the arrays that this rotation by one element leaves unchanged, not in
  general. The shifts only move entries: the entries are of any type.
\<close>

theorem shift_involution:
  assumes "rect Nx Ny S"
  shows "(even Nx \<and> even Ny \<longrightarrow> np_fftshift (np_fftshift S) = S) \<and>
         np_fftshift (inverseShift S) = S \<and>
         (odd Nx \<and> odd Ny \<longrightarrow>
            (np_fftshift (np_fftshift S) = S \<longleftrightarrow>
               (\<forall>i<Nx. \<forall>j<Ny. S ! ((i + 1) mod Nx) ! ((j + 1) mod Ny) = S ! i ! j)))"
proof (intro conjI impI)
  assume "even Nx \<and> even Ny"
  thus "np_fftshift (np_fftshift S) = S" using assms by (simp add: shift_shift_even)
next
  show "np_fftshift (inverseShift S) = S" using assms by (rule shift_inverseShift)
next
  assume o: "odd Nx \<and> odd Ny"
  have r: "rect Nx Ny (np_fftshift (np_fftshift S))"
    by (simp only: np_fftshift_roll2 [OF assms] np_fftshift_roll2 [OF rect_roll2 [OF assms]]
          rect_roll2 [OF rect_roll2 [OF assms]])
  have e: "np_fftshift (np_fftshift S) ! i ! j = S ! ((i + 1) mod Nx) ! ((j + 1) mod Ny)"
    if "i < Nx" "j < Ny" for i j
    using assms o that by (simp add: shift_shift_odd)
  show "np_fftshift (np_fftshift S) = S \<longleftrightarrow>
          (\<forall>i<Nx. \<forall>j<Ny. S ! ((i + 1) mod Nx) ! ((j + 1) mod Ny) = S ! i ! j)"
  proof
    assume "np_fftshift (np_fftshift S) = S"
    thus "\<forall>i<Nx. \<forall>j<Ny. S ! ((i + 1) mod Nx) ! ((j + 1) mod Ny) = S ! i ! j"
      using e by metis
  next
    assume "\<forall>i<Nx. \<forall>j<Ny. S ! ((i + 1) mod Nx) ! ((j + 1) mod Ny) = S ! i ! j"
    thus "np_fftshift (np_fftshift S) = S"
      using e by (intro rect_eqI [OF r assms]) simp
  qed
qed

text \<open>
  The theorem at a 2 by 2 array and at a 3 by 3 array: on the first the double shift is
  the identity, on the second it is not, and the shift undoes the inverse shift on both.
\<close>

theorem shift_involution_witness:
  "rect 2 2 [[1, 2], [3, 4 :: nat]] \<and> even (2 :: nat) \<and>
   np_fftshift (np_fftshift [[1, 2], [3, 4 :: nat]]) = [[1, 2], [3, 4]] \<and>
   np_fftshift (inverseShift [[1, 2], [3, 4 :: nat]]) = [[1, 2], [3, 4]] \<and>
   rect 3 3 [[1, 2, 3], [4, 5, 6], [7, 8, 9 :: nat]] \<and> odd (3 :: nat) \<and>
   np_fftshift (inverseShift [[1, 2, 3], [4, 5, 6], [7, 8, 9 :: nat]]) =
     [[1, 2, 3], [4, 5, 6], [7, 8, 9]] \<and>
   np_fftshift (np_fftshift [[1, 2, 3], [4, 5, 6], [7, 8, 9 :: nat]]) \<noteq>
     [[1, 2, 3], [4, 5, 6], [7, 8, 9]]"
proof -
  let ?A = "[[1, 2], [3, 4 :: nat]]" and ?B = "[[1, 2, 3], [4, 5, 6], [7, 8, 9 :: nat]]"
  have rA: "rect 2 2 ?A" and rB: "rect 3 3 ?B" by (simp_all add: rect_def)
  have "\<not> (\<forall>i<3. \<forall>j<3. ?B ! ((i + 1) mod 3) ! ((j + 1) mod 3) = ?B ! i ! j)"
  proof
    assume "\<forall>i<3. \<forall>j<3. ?B ! ((i + 1) mod 3) ! ((j + 1) mod 3) = ?B ! i ! j"
    from this [rule_format, of 0 0] show False by simp
  qed
  with shift_involution [OF rA] shift_involution [OF rB] rA rB show ?thesis by simp
qed

section \<open>The frequency mask\<close>

text \<open>
  C5. For every shape \<open>(Nx, Ny)\<close>, all offsets and all half sides that are not negative,
  when the selected region lies inside the array (its rows \<open>y_start..y_stop\<close> among the
  \<open>Nx\<close> rows and its columns \<open>x_start..x_stop\<close> among the \<open>Ny\<close> columns), the mask is
  returned, has the shape \<open>(Nx, Ny)\<close>, and its entry at row \<open>y\<close> and column \<open>x\<close> is True
  exactly when \<open>int(Cy)+OFFSETy-Ky \<le> y \<le> int(Cy)+OFFSETy+Ky\<close> and
  \<open>int(Cx)+OFFSETx-Kx \<le> x \<le> int(Cx)+OFFSETx+Kx\<close>, both ends included, the centre being
  truncated toward zero.
\<close>

theorem frequency_mask_inside:
  assumes K: "0 \<le> Kx_half_side" "0 \<le> Ky_half_side"
    and rows: "0 \<le> y_start Ny OFFSETy Ky_half_side" "y_stop Ny OFFSETy Ky_half_side < int Nx"
    and cols: "0 \<le> x_start Nx OFFSETx Kx_half_side" "x_stop Nx OFFSETx Kx_half_side < int Ny"
  shows "\<exists>mask. frequency_mask Nx Ny OFFSETx OFFSETy Kx_half_side Ky_half_side = Inr mask \<and>
           rect Nx Ny mask \<and>
           (\<forall>y<Nx. \<forall>x<Ny. mask ! y ! x \<longleftrightarrow>
              py_int (Cy Ny) + OFFSETy - Ky_half_side \<le> int y \<and>
              int y \<le> py_int (Cy Ny) + OFFSETy + Ky_half_side \<and>
              py_int (Cx Nx) + OFFSETx - Kx_half_side \<le> int x \<and>
              int x \<le> py_int (Cx Nx) + OFFSETx + Kx_half_side)"
proof -
  let ?z = "replicate Nx (replicate Ny False)"
  let ?ys = "y_start Ny OFFSETy Ky_half_side" and ?ye = "y_stop Ny OFFSETy Ky_half_side"
  let ?xs = "x_start Nx OFFSETx Kx_half_side" and ?xe = "x_stop Nx OFFSETx Kx_half_side"
  let ?m = "setslice2 ?z ?ys (?ye + 1) ?xs (?xe + 1) True"
  have yle: "?ys \<le> ?ye" and xle: "?xs \<le> ?xe"
    using K by (simp_all add: y_start_def y_stop_def x_start_def x_stop_def)
  have b: "slice_bound Nx ?ys = nat ?ys" "slice_bound Nx (?ye + 1) = nat (?ye + 1)"
          "slice_bound Ny ?xs = nat ?xs" "slice_bound Ny (?xe + 1) = nat (?xe + 1)"
    using rows cols yle xle by (simp_all add: slice_bound_inside)
  have eq: "frequency_mask Nx Ny OFFSETx OFFSETy Kx_half_side Ky_half_side = Inr ?m"
    by (simp add: frequency_mask_def np_zeros_def)
  have r: "rect Nx Ny ?m" by (rule rect_setslice2) (rule rect_replicate)
  have e: "?m ! y ! x \<longleftrightarrow> ?ys \<le> int y \<and> int y \<le> ?ye \<and> ?xs \<le> int x \<and> int x \<le> ?xe"
    if "y < Nx" "x < Ny" for y x
    using that rows cols yle xle
    by (simp add: setslice2_nth [OF rect_replicate] b) linarith
  show ?thesis
    using eq r e by (simp add: y_start_def y_stop_def x_start_def x_stop_def)
qed

text \<open>The theorem on the 8 by 8 array with the notebook's half sides 3 and offsets 0.\<close>

theorem frequency_mask_inside_witness:
  "(0::int) \<le> 3 \<and> 0 \<le> y_start 8 0 3 \<and> y_stop 8 0 3 < int 8 \<and>
   0 \<le> x_start 8 0 3 \<and> x_stop 8 0 3 < int 8 \<and>
   (\<exists>mask. frequency_mask 8 8 0 0 3 3 = Inr mask \<and> rect 8 8 mask \<and>
      mask ! 1 ! 1 \<and> mask ! 7 ! 4 \<and> \<not> mask ! 0 ! 4 \<and> \<not> mask ! 4 ! 0)"
proof -
  have c: "py_int (Cx 8) = 4" "py_int (Cy 8) = 4"
    by (simp_all add: py_int_def Cx_def Cy_def)
  have h: "(0::int) \<le> 3" "0 \<le> y_start 8 0 3" "y_stop 8 0 3 < int 8"
    "0 \<le> x_start 8 0 3" "x_stop 8 0 3 < int 8"
    by (simp_all add: y_start_def y_stop_def x_start_def x_stop_def c)
  from frequency_mask_inside [OF h(1) h(1) h(2) h(3) h(4) h(5)] obtain mask where
    m: "frequency_mask 8 8 0 0 3 3 = Inr mask" "rect 8 8 mask"
    "\<forall>y<8. \<forall>x<8. mask ! y ! x \<longleftrightarrow>
        py_int (Cy 8) + 0 - 3 \<le> int y \<and> int y \<le> py_int (Cy 8) + 0 + 3 \<and>
        py_int (Cx 8) + 0 - 3 \<le> int x \<and> int x \<le> py_int (Cx 8) + 0 + 3"
    by blast
  from m(3) have "mask ! 1 ! 1" "mask ! 7 ! 4" "\<not> mask ! 0 ! 4" "\<not> mask ! 4 ! 0"
    by (simp_all add: c)
  with m(1,2) h show ?thesis by blast
qed

text \<open>
  C6. The claim is that bounds outside the array make the construction of the mask fail
  with an out-of-range error. The notebook assigns to a slice, and a slice of Python never
  raises. For every shape, all offsets and all half sides, the mask is returned and has the
  shape \<open>(Nx, Ny)\<close>; its True entries are the rows and columns between the bounds of the
  slice, where a bound beyond the end of the axis is clipped to the end and a negative
  bound counts from the end of the axis.
\<close>

theorem frequency_mask_never_fails:
  "\<exists>mask. frequency_mask Nx Ny OFFSETx OFFSETy Kx_half_side Ky_half_side = Inr mask \<and>
      rect Nx Ny mask \<and>
      (\<forall>y<Nx. \<forall>x<Ny. mask ! y ! x \<longleftrightarrow>
         slice_bound Nx (y_start Ny OFFSETy Ky_half_side) \<le> y \<and>
         y < slice_bound Nx (y_stop Ny OFFSETy Ky_half_side + 1) \<and>
         slice_bound Ny (x_start Nx OFFSETx Kx_half_side) \<le> x \<and>
         x < slice_bound Ny (x_stop Nx OFFSETx Kx_half_side + 1))"
proof -
  let ?m = "setslice2 (replicate Nx (replicate Ny False))
              (y_start Ny OFFSETy Ky_half_side) (y_stop Ny OFFSETy Ky_half_side + 1)
              (x_start Nx OFFSETx Kx_half_side) (x_stop Nx OFFSETx Kx_half_side + 1) True"
  have "frequency_mask Nx Ny OFFSETx OFFSETy Kx_half_side Ky_half_side = Inr ?m"
    by (simp add: frequency_mask_def np_zeros_def)
  moreover have "rect Nx Ny ?m" by (rule rect_setslice2) (rule rect_replicate)
  moreover have "\<forall>y<Nx. \<forall>x<Ny. ?m ! y ! x \<longleftrightarrow>
         slice_bound Nx (y_start Ny OFFSETy Ky_half_side) \<le> y \<and>
         y < slice_bound Nx (y_stop Ny OFFSETy Ky_half_side + 1) \<and>
         slice_bound Ny (x_start Nx OFFSETx Kx_half_side) \<le> x \<and>
         x < slice_bound Ny (x_stop Nx OFFSETx Kx_half_side + 1)"
    by (simp add: setslice2_nth [OF rect_replicate])
  ultimately show ?thesis by blast
qed

text \<open>
  The theorem on the 4 by 4 array with half sides 3: the bounds are \<open>-1\<close> and \<open>5\<close> on both
  axes, and the mask is True at \<open>(3, 3)\<close> only.
\<close>

theorem frequency_mask_never_fails_witness:
  "\<exists>mask. frequency_mask 4 4 0 0 3 3 = Inr mask \<and> rect 4 4 mask \<and>
      mask ! 3 ! 3 \<and> \<not> mask ! 2 ! 2"
proof -
  have c: "py_int (Cx 4) = 2" "py_int (Cy 4) = 2"
    by (simp_all add: py_int_def Cx_def Cy_def)
  have b: "slice_bound 4 (y_start 4 0 3) = 3" "slice_bound 4 (y_stop 4 0 3 + 1) = 4"
          "slice_bound 4 (x_start 4 0 3) = 3" "slice_bound 4 (x_stop 4 0 3 + 1) = 4"
    by (simp_all add: slice_bound_def y_start_def y_stop_def x_start_def x_stop_def c)
  from frequency_mask_never_fails [of 4 4 0 0 3 3] obtain mask where
    m: "frequency_mask 4 4 0 0 3 3 = Inr mask" "rect 4 4 mask"
    "\<forall>y<4. \<forall>x<4. mask ! y ! x \<longleftrightarrow>
         slice_bound 4 (y_start 4 0 3) \<le> y \<and> y < slice_bound 4 (y_stop 4 0 3 + 1) \<and>
         slice_bound 4 (x_start 4 0 3) \<le> x \<and> x < slice_bound 4 (x_stop 4 0 3 + 1)"
    by blast
  from m(3) have "mask ! 3 ! 3" "\<not> mask ! 2 ! 2" by (simp_all add: b)
  with m(1,2) show ?thesis by blast
qed

text \<open>
  The claim fails on the 4 by 4 array with offsets 0 and half sides 2: the upper bounds
  are 4 on both axes, outside the array, and the mask is returned, clipped to the array.
\<close>

theorem frequency_mask_out_of_range_clamps:
  "int 4 \<le> y_stop 4 0 2 \<and> int 4 \<le> x_stop 4 0 2 \<and>
   frequency_mask 4 4 0 0 2 2 =
     Inr [[True, True, True, True], [True, True, True, True],
          [True, True, True, True], [True, True, True, True]]"
  by (simp add: frequency_mask_def np_zeros_def setslice2_def slice_bound_def y_start_def y_stop_def
        x_start_def x_stop_def py_int_def Cx_def Cy_def upt_conv_Cons eval_nat_numeral)

section \<open>The interference\<close>

text \<open>
  C9. The claim is that the position is converted by adding the truncated centre, that
  exactly that coefficient is overwritten in a copy, and that a converted index outside
  the array fails without writing anywhere, a negative index included. The notebook
  indexes the numpy array directly, and numpy counts a negative index from the end. For
  every k-space of shape \<open>(Nx, Ny)\<close>, with the converted indices \<open>int(Cy)+OFFSETy\<close> on the
  rows and \<open>int(Cx)+OFFSETx\<close> on the columns: when both lie in \<open>[-Nx, Nx)\<close> and
  \<open>[-Ny, Ny)\<close>, the result is the k-space with exactly one coefficient overwritten, the
  one at the converted indices taken modulo the sizes (the converted position itself when
  it is inside the array, the position counted from the end when it is negative);
  otherwise the assignment raises IndexError.
\<close>

theorem kspace_mod_point_index:
  assumes "rect Nx Ny kspace"
  shows "(- int Nx \<le> py_int (Cy Ny) + OFFSETy \<and> py_int (Cy Ny) + OFFSETy < int Nx \<and>
          - int Ny \<le> py_int (Cx Nx) + OFFSETx \<and> py_int (Cx Nx) + OFFSETx < int Ny \<longrightarrow>
            (\<exists>kspace_mod. kspace_mod_point Nx Ny kspace OFFSETx OFFSETy v = Inr kspace_mod \<and>
               rect Nx Ny kspace_mod \<and>
               (\<forall>i<Nx. \<forall>j<Ny. kspace_mod ! i ! j =
                  (if int i = (py_int (Cy Ny) + OFFSETy) mod int Nx \<and>
                      int j = (py_int (Cx Nx) + OFFSETx) mod int Ny
                   then v else kspace ! i ! j)))) \<and>
         (\<not> (- int Nx \<le> py_int (Cy Ny) + OFFSETy \<and> py_int (Cy Ny) + OFFSETy < int Nx \<and>
          - int Ny \<le> py_int (Cx Nx) + OFFSETx \<and> py_int (Cx Nx) + OFFSETx < int Ny) \<longrightarrow>
            kspace_mod_point Nx Ny kspace OFFSETx OFFSETy v = Inl IndexError)"
proof -
  let ?iy = "py_int (Cy Ny) + OFFSETy" and ?ix = "py_int (Cx Nx) + OFFSETx"
  let ?r = "nat (?iy mod int Nx)" and ?c = "nat (?ix mod int Ny)"
  let ?K = "kspace[?r := (kspace ! ?r)[?c := v]]"
  have len: "length kspace = Nx" "\<And>i. i < Nx \<Longrightarrow> length (kspace ! i) = Ny"
    using assms by (simp_all add: rect_def list_all_length)
  {
    assume ok: "- int Nx \<le> ?iy \<and> ?iy < int Nx \<and> - int Ny \<le> ?ix \<and> ?ix < int Ny"
    hence pos: "0 < Nx" "0 < Ny" by auto
    have r: "?r < Nx" and c: "?c < Ny" using pos by (simp_all add: nat_less_iff)
    have req: "int i = ?iy mod int Nx \<longleftrightarrow> i = ?r" for i using pos by auto
    have ceq: "int j = ?ix mod int Ny \<longleftrightarrow> j = ?c" for j using pos by auto
    have "kspace_mod_point Nx Ny kspace OFFSETx OFFSETy v = Inr ?K"
      using ok by (simp add: kspace_mod_point_def setitem2_def norm_index_cases)
    moreover have "rect Nx Ny ?K"
      using assms r by (auto simp: rect_def list_all_length nth_list_update)
    moreover have "\<forall>i<Nx. \<forall>j<Ny. ?K ! i ! j =
        (if int i = ?iy mod int Nx \<and> int j = ?ix mod int Ny then v else kspace ! i ! j)"
      using len r c by (auto simp: req ceq nth_list_update)
    ultimately have "\<exists>kspace_mod. kspace_mod_point Nx Ny kspace OFFSETx OFFSETy v = Inr kspace_mod \<and>
               rect Nx Ny kspace_mod \<and>
               (\<forall>i<Nx. \<forall>j<Ny. kspace_mod ! i ! j =
                  (if int i = ?iy mod int Nx \<and> int j = ?ix mod int Ny
                   then v else kspace ! i ! j))" by blast
  }
  moreover
  {
    assume "\<not> (- int Nx \<le> ?iy \<and> ?iy < int Nx \<and> - int Ny \<le> ?ix \<and> ?ix < int Ny)"
    hence "kspace_mod_point Nx Ny kspace OFFSETx OFFSETy v = Inl IndexError"
      by (auto simp: kspace_mod_point_def setitem2_def norm_index_cases)
  }
  ultimately show ?thesis by blast
qed

text \<open>
  The theorem on the 4 by 4 zero spectrum: with offsets \<open>(1, -1)\<close> the coefficient at
  row 1 and column 3 is overwritten and the one at the centre is not; with the row
  offset 2 the converted row index is 4 and the assignment raises IndexError.
\<close>

theorem kspace_mod_point_index_witness:
  "rect 4 4 (replicate 4 (replicate 4 (0::complex))) \<and>
   (\<exists>kspace_mod. kspace_mod_point 4 4 (replicate 4 (replicate 4 0)) 1 (- 1) 5 = Inr kspace_mod \<and>
       kspace_mod ! 1 ! 3 = 5 \<and> kspace_mod ! 2 ! 2 = 0) \<and>
   kspace_mod_point 4 4 (replicate 4 (replicate 4 0)) 0 2 5 = Inl IndexError"
proof -
  let ?Z = "replicate 4 (replicate 4 (0::complex))"
  have r: "rect 4 4 ?Z" by (rule rect_replicate)
  have c: "py_int (Cx 4) = 2" "py_int (Cy 4) = 2"
    by (simp_all add: py_int_def Cx_def Cy_def)
  from kspace_mod_point_index [OF r, of "- 1" 1 5] obtain kspace_mod where
    k: "kspace_mod_point 4 4 ?Z 1 (- 1) 5 = Inr kspace_mod"
      "\<forall>i<4. \<forall>j<4. kspace_mod ! i ! j =
         (if int i = (py_int (Cy 4) + (- 1)) mod int 4 \<and> int j = (py_int (Cx 4) + 1) mod int 4
          then 5 else ?Z ! i ! j)"
    by (auto simp: c)
  from k(2) have "kspace_mod ! 1 ! 3 = 5" "kspace_mod ! 2 ! 2 = 0" by (simp_all add: c)
  moreover from kspace_mod_point_index [OF r, of 2 0 5]
  have "kspace_mod_point 4 4 ?Z 0 2 5 = Inl IndexError" by (simp add: c)
  ultimately show ?thesis using r k(1) by blast
qed

text \<open>
  The claim fails on the 4 by 4 zero spectrum with the row offset \<open>-3\<close>: the converted
  row index is \<open>-1\<close>, below the array, and the assignment does not fail but writes the
  value into the last row.
\<close>

theorem kspace_mod_point_wraps:
  "py_int (Cy 4) + (- 3) < 0 \<and>
   kspace_mod_point 4 4 (replicate 4 (replicate 4 0)) 0 (- 3) (Complex 10 10) =
     Inr [[0, 0, 0, 0], [0, 0, 0, 0], [0, 0, 0, 0], [0, 0, Complex 10 10, 0]]"
  by (simp add: kspace_mod_point_def setitem2_def norm_index_def py_int_def Cx_def Cy_def
         eval_nat_numeral)

section \<open>The sinusoid\<close>

text \<open>
  C7. The claim is that \<open>calculate_sinusoid\<close> returns, for every shape with both sizes at
  least 1 and nonzero periods, the array of that shape holding the sinusoid. The loops of
  the function run \<open>y\<close> over the first size and \<open>x\<close> over the second, and write
  \<open>sin_xy[x,y]\<close>, with \<open>x\<close> on the first axis: on a shape whose sizes differ an index
  leaves its axis. On the shape \<open>(1, 2)\<close> with periods 1, the second iteration writes
  \<open>sin_xy[1,0]\<close> into an array of one row, and the function raises IndexError instead of
  returning an array. By \<open>calculate_sinusoid_shapes\<close> the same happens on every shape of
  two different sizes, and on the square shapes the array of the claim is returned.
\<close>

theorem calculate_sinusoid_nonsquare_IndexError:
  "calculate_sinusoid [1, 2] 1 1 0 0 0 0 = Inl IndexError"
  by (simp add: calculate_sinusoid_def np_zeros_def Let_def sinusoid_body_def sinusoid_value_def
      setitem2_def norm_index_def upt_conv_Cons)

text \<open>
  C8. The claim is that a period \<open>wx\<close> or \<open>wy\<close> equal to zero makes \<open>calculate_sinusoid\<close>
  fail with a division by zero on every shape. The division happens in the body of the
  loops, so it needs a pixel: for every shape of two sizes that are both at least 1, and
  all frequencies and phases, \<open>calculate_sinusoid\<close> with the period \<open>wx\<close> or the period
  \<open>wy\<close> equal to zero raises ZeroDivisionError and returns no array, the first iteration
  already dividing by the period.
\<close>

theorem calculate_sinusoid_zero_period:
  assumes "1 \<le> d0" and "1 \<le> d1" and "wx = 0 \<or> wy = 0"
  shows "calculate_sinusoid [d0, d1] wx wy fx fy phix phiy = Inl ZeroDivisionError"
proof -
  have v: "sinusoid_value wx wy fx fy phix phiy 0 0 = Inl ZeroDivisionError"
    using assms(3) by (auto simp: sinusoid_value_def)
  have r0: "[0..<nat d0] = 0 # [1..<nat d0]" using assms(1) by (simp add: upt_conv_Cons)
  have r1: "[0..<nat d1] = 0 # [1..<nat d1]" using assms(2) by (simp add: upt_conv_Cons)
  have z: "np_zeros (0::real) d0 d1 = Inr (replicate (nat d0) (replicate (nat d1) 0))"
    using assms(1,2) by (simp add: np_zeros_def)
  show ?thesis
    by (simp add: calculate_sinusoid_def z Let_def r0 r1 sinusoid_body_def v)
qed

text \<open>The theorem on the shape \<open>(4, 4)\<close> with the period \<open>wx\<close> zero, and with \<open>wy\<close> zero.\<close>

theorem calculate_sinusoid_zero_period_witness:
  "(1::int) \<le> 4 \<and> ((0::real) = 0 \<or> (4::real) = 0) \<and>
     calculate_sinusoid [4, 4] 0 4 1 1 0 0 = Inl ZeroDivisionError \<and>
     calculate_sinusoid [4, 4] 4 0 1 1 0 0 = Inl ZeroDivisionError"
  using calculate_sinusoid_zero_period [of 4 4 0 4 1 1 0 0]
    calculate_sinusoid_zero_period [of 4 4 4 0 1 1 0 0] by simp

text \<open>
  The claim fails on the shape \<open>(0, 3)\<close> with the period \<open>wx\<close> zero: the first axis is
  empty, the body of the loops never runs, nothing is divided, and the empty array is
  returned.
\<close>

theorem calculate_sinusoid_zero_period_empty_axis:
  "calculate_sinusoid [0, 3] 0 1 1 1 0 0 = Inr []"
  by (simp add: calculate_sinusoid_def np_zeros_def)

text \<open>
  C10. When \<open>dimension\<close> is a sequence whose length is not 2, \<open>calculate_sinusoid\<close>
  raises the ValueError of its guard, whatever the other arguments are: the guard is the
  first statement, so nothing has been allocated or computed.
\<close>

theorem calculate_sinusoid_length_guard:
  "length dimension \<noteq> 2 \<Longrightarrow>
     calculate_sinusoid dimension wx wy fx fy phix phiy =
       Inl (ValueError ''dimension must be a tuple of length 2'')"
  by (simp add: calculate_sinusoid_def)

theorem calculate_sinusoid_length_guard_witness:
  "length [3, 4, 5 :: int] \<noteq> 2 \<and>
     calculate_sinusoid [3, 4, 5] 1 1 0 0 0 0 =
       Inl (ValueError ''dimension must be a tuple of length 2'')"
  using calculate_sinusoid_length_guard [of "[3, 4, 5]" 1 1 0 0 0 0] by simp

end
